theory Spec2Isabelle
  imports Complex_Main "HOL-Library.Log_Nat"
begin

section \<open>Data model\<close>

text \<open>
  The alert texts of \<^verbatim>\<open>watchdog.py\<close> are f-strings: a fixed tag line followed by the
  substituted fields. A message is modelled by its tag (the constructor) and the values
  substituted into it, in the order of the f-string; times are read from the clock and
  kept as integers (microseconds), the rendering by \<^verbatim>\<open>strftime\<close> is not modelled.
\<close>

datatype message =
    Auto_Started int string int
  | Auto_Stopped string int
  | Timeout_Updated int int string int
  | Timeout_Alert string int "rat option" "int option" int

fun tag :: "message \<Rightarrow> string" where
  "tag (Auto_Started timeout info t) = ''[WATCHDOG] Auto-Started''"
| "tag (Auto_Stopped reason t) = ''[WATCHDOG] Auto-Stopped''"
| "tag (Timeout_Updated old_timeout timeout info t) = ''[WATCHDOG] Timeout Updated''"
| "tag (Timeout_Alert info timeout elapsed last_feed t) = ''[WATCHDOG] Timeout Alert!''"

text \<open>
  The two notifier classes come from the \<^verbatim>\<open>log\<close> module; the watchdog only constructs
  them from the configured credentials and calls \<^verbatim>\<open>send_message\<close> on them.
\<close>

datatype notifier = TelegramNotifier string string | WeChatWorkNotifier string

text \<open>
  \<^verbatim>\<open>send_message\<close> either returns a truth value or raises. A raised fault is an
  instance of \<^verbatim>\<open>Exception\<close> (carrying its text), which is what the handler
  \<^verbatim>\<open>except Exception\<close> of the dispatch loop names.
\<close>

datatype send_outcome = Returns bool | Raises string

text \<open>The fields of \<^verbatim>\<open>Watchdog.__init__\<close> (the lock is the atomicity of each operation).\<close>

record watchdog =
  is_running :: bool
  is_timeout_occurred :: bool
  timeout_ms :: int
  last_feed_time :: "int option"
  start_info :: string
  telegram_notifier :: "notifier option"
  wechat_notifier :: "notifier option"

definition init :: watchdog where
  "init = \<lparr> is_running = False, is_timeout_occurred = False, timeout_ms = 0,
            last_feed_time = None, start_info = [],
            telegram_notifier = None, wechat_notifier = None \<rparr>"

text \<open>
  The collaborators that are imported from \<^verbatim>\<open>utils\<close>, \<^verbatim>\<open>log\<close> and \<^verbatim>\<open>datetime\<close> are
  parameters of every operation:
  \<^item> \<open>now\<close>: the value of the \<open>n\<close>-th call of \<^verbatim>\<open>datetime.now()\<close>, in microseconds;
  \<^item> \<open>get_default_ext_notify\<close>: the default platform, the empty string when it is unset
    (Python tests its truth value, so \<^verbatim>\<open>None\<close> and \<^verbatim>\<open>''\<close> behave alike);
  \<^item> \<open>get_available_notifiers\<close>: the enabled platforms in their enumerated order;
  \<^item> \<open>get_telegram_config\<close>, \<open>get_wechat_config\<close>: the credentials, empty when unset;
  \<^item> \<open>send_message\<close>: what a notifier does with a message.
\<close>

record env =
  now :: "nat \<Rightarrow> int"
  get_default_ext_notify :: string
  get_available_notifiers :: "string list"
  get_telegram_config :: "string \<times> string"
  get_wechat_config :: string
  send_message :: "notifier \<Rightarrow> message \<Rightarrow> send_outcome"

text \<open>
  What the operations do to the outside: the number of clock reads so far, the calls of
  \<^verbatim>\<open>send_message\<close> in order (the source logs each as "Trying to send ..."), and the
  messages handed to \<^verbatim>\<open>_send_notification\<close> in order (the source logs each entry of the
  router).
\<close>

record world =
  clock_reads :: nat
  sent :: "(notifier \<times> message) list"
  routed :: "message list"

type_synonym state = "watchdog \<times> world"

definition datetime_now :: "env \<Rightarrow> world \<Rightarrow> int \<times> world" where
  "datetime_now e x = (now e (clock_reads x), x\<lparr>clock_reads := Suc (clock_reads x)\<rparr>)"

subsection \<open>Elapsed time in binary floating point\<close>

text \<open>
  \<^verbatim>\<open>(datetime.now() - last).total_seconds() * 1000\<close> is computed in Python floats, that is
  IEEE 754 binary64 with rounding to nearest, ties to even. \<^verbatim>\<open>total_seconds()\<close> is the
  correctly rounded quotient of the difference in microseconds by \<open>10\<^sup>6\<close>, and the product
  by 1000 is rounded again. A float is modelled by the rational number it denotes.

  \<open>round_double\<close> rounds a rational to the nearest number with a significand of 53 bits:
  with \<open>2\<^sup>e \<le> \<bar>x\<bar> < 2\<^sup>e\<^sup>+\<^sup>1\<close> the neighbouring floats are the multiples of \<open>2\<^sup>e\<^sup>-\<^sup>5\<^sup>2\<close>. Overflow
  and subnormal numbers are left out: the difference of two \<^verbatim>\<open>datetime\<close> values is below
  \<open>10\<^sup>1\<^sup>8\<close> microseconds and, when not zero, at least one microsecond.
\<close>

definition pow2 :: "int \<Rightarrow> rat" where
  "pow2 k = (if 0 \<le> k then 2 ^ nat k else 1 / 2 ^ nat (- k))"

definition round_half_even :: "rat \<Rightarrow> int" where
  "round_half_even y =
     (let f = \<lfloor>y\<rfloor>; r = y - of_int f
      in if r < 1 / 2 then f else if 1 / 2 < r then f + 1
         else if even f then f else f + 1)"

definition binary_exponent :: "rat \<Rightarrow> int" where
  "binary_exponent x =
     (if 1 \<le> \<bar>x\<bar> then bitlen \<lfloor>\<bar>x\<bar>\<rfloor> - 1 else - bitlen (\<lceil>1 / \<bar>x\<bar>\<rceil> - 1))"

definition round_double :: "rat \<Rightarrow> rat" where
  "round_double x =
     (if x = 0 then 0
      else (let ulp = pow2 (binary_exponent x - 52)
            in of_int (round_half_even (x / ulp)) * ulp))"

definition elapsed_ms :: "int \<Rightarrow> int \<Rightarrow> rat" where
  "elapsed_ms t last_feed =
     round_double (round_double (of_int (t - last_feed) / 1000000) * 1000)"

section \<open>Notification router\<close>

definition get_telegram_notifier :: "env \<Rightarrow> watchdog \<Rightarrow> notifier option \<times> watchdog" where
  "get_telegram_notifier e w =
     (case telegram_notifier w of
        Some n \<Rightarrow> (Some n, w)
      | None \<Rightarrow>
          (let (bot_token, chat_id) = get_telegram_config e in
           if bot_token \<noteq> [] \<and> chat_id \<noteq> []
           then (Some (TelegramNotifier bot_token chat_id),
                 w\<lparr>telegram_notifier := Some (TelegramNotifier bot_token chat_id)\<rparr>)
           else (None, w)))"

definition get_wechat_notifier :: "env \<Rightarrow> watchdog \<Rightarrow> notifier option \<times> watchdog" where
  "get_wechat_notifier e w =
     (case wechat_notifier w of
        Some n \<Rightarrow> (Some n, w)
      | None \<Rightarrow>
          (let webhook_key = get_wechat_config e in
           if webhook_key \<noteq> []
           then (Some (WeChatWorkNotifier webhook_key),
                 w\<lparr>wechat_notifier := Some (WeChatWorkNotifier webhook_key)\<rparr>)
           else (None, w)))"

definition notifier_send :: "env \<Rightarrow> notifier \<Rightarrow> message \<Rightarrow> world \<Rightarrow> send_outcome \<times> world" where
  "notifier_send e n m x = (send_message e n m, x\<lparr>sent := sent x @ [(n, m)]\<rparr>)"

text \<open>
  The body of the \<^verbatim>\<open>try\<close> block for one platform: it returns \<^verbatim>\<open>True\<close> from the whole
  function, runs to its end, or raises. The test \<^verbatim>\<open>if notifier\<close> is the test that a
  notifier was obtained (a notifier object is true, \<^verbatim>\<open>None\<close> is false); a platform
  name other than the two the loop knows makes no call at all.
\<close>

datatype body_result = Returned_True | Completed | Raised string

definition send_via :: "env \<Rightarrow> message \<Rightarrow> notifier option \<times> watchdog \<Rightarrow> world \<Rightarrow> body_result \<times> state" where
  "send_via e m nw x =
     (case nw of
        (None, w') \<Rightarrow> (Completed, (w', x))
      | (Some n, w') \<Rightarrow>
          (case notifier_send e n m x of
             (Returns b, x') \<Rightarrow> (if b then Returned_True else Completed, (w', x'))
           | (Raises exn, x') \<Rightarrow> (Raised exn, (w', x'))))"

definition try_body :: "env \<Rightarrow> message \<Rightarrow> string \<Rightarrow> state \<Rightarrow> body_result \<times> state" where
  "try_body e m platform s =
     (case s of (w, x) \<Rightarrow>
        if platform = ''telegram'' then send_via e m (get_telegram_notifier e w) x
        else if platform = ''wechat'' then send_via e m (get_wechat_notifier e w) x
        else (Completed, (w, x)))"

text \<open>
  \<^verbatim>\<open>for platform in try_order\<close>: the handler \<^verbatim>\<open>except Exception ... continue\<close> is the
  third case.
\<close>

fun send_loop :: "env \<Rightarrow> message \<Rightarrow> string list \<Rightarrow> state \<Rightarrow> bool \<times> state" where
  "send_loop e m [] s = (False, s)"
| "send_loop e m (platform # rest) s =
     (case try_body e m platform s of
        (Returned_True, s') \<Rightarrow> (True, s')
      | (Completed, s') \<Rightarrow> send_loop e m rest s'
      | (Raised exn, s') \<Rightarrow> send_loop e m rest s')"

fun add_alternatives :: "string list \<Rightarrow> string list \<Rightarrow> string list" where
  "add_alternatives [] try_order = try_order"
| "add_alternatives (platform # rest) try_order =
     add_alternatives rest
       (if platform \<notin> set try_order then try_order @ [platform] else try_order)"

definition build_try_order :: "env \<Rightarrow> string list" where
  "build_try_order e =
     (let default_platform = get_default_ext_notify e;
          available_platforms = get_available_notifiers e
      in add_alternatives available_platforms
           (if default_platform \<noteq> [] \<and> default_platform \<in> set available_platforms
            then [default_platform] else []))"

definition send_notification :: "env \<Rightarrow> message \<Rightarrow> state \<Rightarrow> bool \<times> state" where
  "send_notification e m s =
     (case s of (w, x) \<Rightarrow>
        (let x1 = x\<lparr>routed := routed x @ [m]\<rparr> in
         if get_available_notifiers e = [] then (False, (w, x1))
         else send_loop e m (build_try_order e) (w, x1)))"

section \<open>Watchdog operations\<close>

definition internal_start :: "env \<Rightarrow> int \<Rightarrow> string \<Rightarrow> state \<Rightarrow> bool \<times> state" where
  "internal_start e timeout string_info s =
     (case s of (w, x) \<Rightarrow>
        (let (t_feed, x1) = datetime_now e x;
             w1 = w\<lparr>timeout_ms := timeout, start_info := string_info,
                    last_feed_time := Some t_feed, is_running := True,
                    is_timeout_occurred := False\<rparr>;
             (t_msg, x2) = datetime_now e x1;
             (notification_sent, s') =
                send_notification e (Auto_Started timeout string_info t_msg) (w1, x2)
         in (True, s')))"

definition internal_stop :: "env \<Rightarrow> string \<Rightarrow> state \<Rightarrow> bool \<times> state" where
  "internal_stop e string_info s =
     (case s of (w, x) \<Rightarrow>
        (let w1 = w\<lparr>is_running := False\<rparr>;
             (t_msg, x1) = datetime_now e x;
             (notification_sent, s') =
                send_notification e (Auto_Stopped string_info t_msg) (w1, x1)
         in (True, s')))"

definition update_timeout :: "env \<Rightarrow> int \<Rightarrow> string \<Rightarrow> state \<Rightarrow> bool \<times> state" where
  "update_timeout e timeout string_info s =
     (case s of (w, x) \<Rightarrow>
        (let old_timeout = timeout_ms w;
             w1 = w\<lparr>timeout_ms := timeout\<rparr>;
             (t_msg, x1) = datetime_now e x;
             (notification_sent, s') =
                send_notification e (Timeout_Updated old_timeout timeout string_info t_msg) (w1, x1)
         in (True, s')))"

definition feed :: "env \<Rightarrow> int option \<Rightarrow> string \<Rightarrow> state \<Rightarrow> bool \<times> state" where
  "feed e timeout string_info s =
     (case s of (w, x) \<Rightarrow>
        if \<not> is_running w then
          (let actual_timeout = (case timeout of Some t \<Rightarrow> t | None \<Rightarrow> 30000)
           in internal_start e actual_timeout string_info (w, x))
        else
          (let (t_feed, x1) = datetime_now e x;
               w1 = w\<lparr>last_feed_time := Some t_feed, is_timeout_occurred := False\<rparr>
           in (case timeout of
                 Some t \<Rightarrow> (True, snd (update_timeout e t string_info (w1, x1)))
               | None \<Rightarrow> (True, (w1, x1)))))"

definition poll :: "env \<Rightarrow> state \<Rightarrow> bool \<times> state" where
  "poll e s =
     (case s of (w, x) \<Rightarrow>
        if \<not> is_running w then (False, (w, x))
        else
          (case last_feed_time w of
             None \<Rightarrow> (True, (w, x))
           | Some last_feed \<Rightarrow>
               (let (t, x1) = datetime_now e x;
                    is_timeout = (elapsed_ms t last_feed > of_int (timeout_ms w))
                in if is_timeout \<and> \<not> is_timeout_occurred w
                   then (True, (w\<lparr>is_timeout_occurred := True\<rparr>, x1))
                   else (False, (w, x1)))))"

text \<open>
  The first statements of \<^verbatim>\<open>notify\<close>: the elapsed time (infinite, here \<open>None\<close>, when
  there was no feed) and the alert text, whose last field reads the clock again.
\<close>

definition build_timeout_message :: "env \<Rightarrow> watchdog \<Rightarrow> world \<Rightarrow> message \<times> world" where
  "build_timeout_message e w x =
     (let (elapsed, x1) =
            (case last_feed_time w of
               Some last_feed \<Rightarrow>
                 (let (t, x') = datetime_now e x in (Some (elapsed_ms t last_feed), x'))
             | None \<Rightarrow> (None, x));
          (t_alert, x2) = datetime_now e x1
      in (Timeout_Alert (start_info w) (timeout_ms w) elapsed (last_feed_time w) t_alert, x2))"

definition notify :: "env \<Rightarrow> state \<Rightarrow> bool \<times> state" where
  "notify e s =
     (case s of (w, x) \<Rightarrow>
        if \<not> is_running w then (False, (w, x))
        else
          (let (timeout_message, x2) = build_timeout_message e w x;
               (notification_sent, s3) = send_notification e timeout_message (w, x2);
               (stopped, s4) = internal_stop e ''Timeout occurred'' s3
           in (notification_sent, s4)))"

definition manual_stop :: "env \<Rightarrow> string \<Rightarrow> state \<Rightarrow> bool \<times> state" where
  "manual_stop e string_info s =
     (case s of (w, x) \<Rightarrow>
        if \<not> is_running w then (False, (w, x))
        else (True, snd (internal_stop e (''Manual stop - '' @ string_info) (w, x))))"

text \<open>
  The states a watchdog can be in: the freshly constructed one, and whatever the four
  public operations make of a reachable state, under any collaborators.
\<close>

inductive reachable :: "state \<Rightarrow> bool" where
  reach_init: "reachable (init, x)"
| reach_feed: "reachable s \<Longrightarrow> reachable (snd (feed e timeout string_info s))"
| reach_poll: "reachable s \<Longrightarrow> reachable (snd (poll e s))"
| reach_notify: "reachable s \<Longrightarrow> reachable (snd (notify e s))"
| reach_manual_stop: "reachable s \<Longrightarrow> reachable (snd (manual_stop e string_info s))"

section \<open>Auxiliary notions for the statements\<close>

text \<open>
  The router may create and cache a notifier and it appends to the two logs; the
  fields of the state machine and the clock are not its business.
\<close>

definition same_core :: "watchdog \<Rightarrow> watchdog \<Rightarrow> bool" where
  "same_core w w' \<longleftrightarrow>
     is_running w' = is_running w \<and> is_timeout_occurred w' = is_timeout_occurred w \<and>
     timeout_ms w' = timeout_ms w \<and> last_feed_time w' = last_feed_time w \<and>
     start_info w' = start_info w"

definition same_clock :: "world \<Rightarrow> world \<Rightarrow> bool" where
  "same_clock x x' \<longleftrightarrow> clock_reads x' = clock_reads x \<and> routed x' = routed x"

text \<open>A concrete environment and concrete states, for instances of the theorems.\<close>

definition demo_env :: env where
  "demo_env =
     \<lparr> now = (\<lambda>n. 1000000 * int n),
       get_default_ext_notify = ''telegram'',
       get_available_notifiers = [''wechat'', ''telegram''],
       get_telegram_config = (''token'', ''chat''),
       get_wechat_config = ''key'',
       send_message = (\<lambda>n m. case n of
            TelegramNotifier bot_token chat_id \<Rightarrow> Raises ''connection refused''
          | WeChatWorkNotifier webhook_key \<Rightarrow> Returns (tag m \<noteq> ''[WATCHDOG] Auto-Stopped'')) \<rparr>"

definition world0 :: world where
  "world0 = \<lparr> clock_reads = 0, sent = [], routed = [] \<rparr>"

definition armed :: watchdog where
  "armed = init\<lparr> is_running := True, timeout_ms := 1000, last_feed_time := Some 0 \<rparr>"

definition dead_env :: env where
  "dead_env = demo_env\<lparr> get_available_notifiers := [] \<rparr>"

text \<open>
  The scenario of the specification: threshold 1000 ms, last feed at 0, polls at 500 ms,
  1100 ms and 1200 ms.
\<close>

definition scenario_env :: env where
  "scenario_env =
     demo_env\<lparr> now := (\<lambda>n. if n = 0 then 500000 else if n = 1 then 1100000 else 1200000) \<rparr>"

text \<open>
  A watchdog that was armed with threshold 0, polled two seconds later and then
  stopped by \<open>notify\<close>.
\<close>

definition idle_latched :: state where
  "idle_latched =
     snd (notify demo_env (snd (poll demo_env (snd (feed demo_env (Some 0) [] (init, world0))))))"



text \<open>
  For the statements about the router: the notifier a platform name leads to in a given
  watchdog (cached, or built from the credentials; none for a name the loop does not
  know), whether a send through it returns \<^verbatim>\<open>True\<close>, and the calls of \<^verbatim>\<open>send_message\<close>
  that visiting a list of platforms makes.
\<close>

definition notifier_for :: "env \<Rightarrow> watchdog \<Rightarrow> string \<Rightarrow> notifier option" where
  "notifier_for e w platform =
     (if platform = ''telegram'' then fst (get_telegram_notifier e w)
      else if platform = ''wechat'' then fst (get_wechat_notifier e w)
      else None)"

definition succeeds :: "env \<Rightarrow> watchdog \<Rightarrow> message \<Rightarrow> string \<Rightarrow> bool" where
  "succeeds e w m platform =
     (case notifier_for e w platform of
        None \<Rightarrow> False
      | Some n \<Rightarrow> send_message e n m = Returns True)"

fun attempts :: "env \<Rightarrow> watchdog \<Rightarrow> message \<Rightarrow> string list \<Rightarrow> (notifier \<times> message) list" where
  "attempts e w m [] = []"
| "attempts e w m (p # ps) =
     (case notifier_for e w p of
        None \<Rightarrow> attempts e w m ps
      | Some n \<Rightarrow> (n, m) # attempts e w m ps)"

text \<open>
  A list without its repetitions, every element at the place of its first occurrence.
\<close>

fun first_occurrences :: "'a list \<Rightarrow> 'a list" where
  "first_occurrences [] = []"
| "first_occurrences (p # ps) = p # filter (\<lambda>q. q \<noteq> p) (first_occurrences ps)"

text \<open>The prefix of a list up to and including the first element with a property.\<close>

fun upto_first :: "('a \<Rightarrow> bool) \<Rightarrow> 'a list \<Rightarrow> 'a list" where
  "upto_first P [] = []"
| "upto_first P (p # ps) = p # (if P p then [] else upto_first P ps)"


text \<open>An environment in which no channel delivers.\<close>

definition failing_env :: env where
  "failing_env = demo_env\<lparr> send_message := (\<lambda>n m. Returns False) \<rparr>"

definition hello :: message where
  "hello = Auto_Started 30000 ''job'' 0"




section \<open>Rounding to binary64\<close>

lemma pow2_powi: "pow2 k = 2 powi k"
  by (simp add: pow2_def power_int_def inverse_eq_divide power_one_over)

lemma pow2_pos: "0 < pow2 k"
  by (simp add: pow2_powi)


lemma pow2_nat: "0 \<le> k \<Longrightarrow> pow2 k = 2 ^ nat k"
  by (simp add: pow2_def)

lemma pow2_neg: "pow2 (- k) = 1 / pow2 k"
  by (simp add: pow2_powi power_int_minus inverse_eq_divide)




lemma binary_exponent_upper:
  assumes "x \<noteq> 0"
  shows "\<bar>x\<bar> < pow2 (binary_exponent x + 1)"
proof (cases "1 \<le> \<bar>x\<bar>")
  case True
  then have pos: "0 < \<lfloor>\<bar>x\<bar>\<rfloor>" by linarith
  from bitlen_bounds[OF pos] have "\<lfloor>\<bar>x\<bar>\<rfloor> < 2 ^ nat (bitlen \<lfloor>\<bar>x\<bar>\<rfloor>)" ..
  then have "\<bar>x\<bar> < of_int (2 ^ nat (bitlen \<lfloor>\<bar>x\<bar>\<rfloor>))"
    by (simp only: floor_less_iff)
  then have "\<bar>x\<bar> < pow2 (bitlen \<lfloor>\<bar>x\<bar>\<rfloor>)"
    by (simp add: pow2_nat bitlen_nonneg)
  with True show ?thesis by (simp add: binary_exponent_def)
next
  case False
  with assms have x: "0 < \<bar>x\<bar>" "\<bar>x\<bar> < 1" by simp_all
  let ?c = "\<lceil>1 / \<bar>x\<bar>\<rceil>"
  let ?m = "bitlen (?c - 1)"
  from x have "1 < 1 / \<bar>x\<bar>" by (simp add: field_simps)
  then have c: "0 < ?c - 1" by linarith
  then have m: "0 \<le> ?m - 1"
    using bitlen_eq_zero_iff[of "?c - 1"] bitlen_nonneg[of "?c - 1"] by linarith
  from bitlen_bounds[OF c] have "2 ^ nat (?m - 1) \<le> ?c - 1" ..
  then have "(of_int (2 ^ nat (?m - 1)) :: rat) \<le> of_int (?c - 1)"
    by (simp only: of_int_le_iff)
  also have "(of_int (?c - 1) :: rat) < 1 / \<bar>x\<bar>"
    using ceiling_correct[of "1 / \<bar>x\<bar>"] by simp
  finally have "pow2 (?m - 1) < 1 / \<bar>x\<bar>" using m by (simp add: pow2_nat)
  with x pow2_pos[of "?m - 1"] have "\<bar>x\<bar> < 1 / pow2 (?m - 1)"
    by (simp add: field_simps)
  also have "1 / pow2 (?m - 1) = pow2 (- (?m - 1))" by (rule pow2_neg[symmetric])
  also have "- (?m - 1) = - ?m + 1" by simp
  finally show ?thesis using False by (simp add: binary_exponent_def)
qed


text \<open>
  The model agrees with the floats at the places where rounding shows: 2007000
  microseconds become \<^verbatim>\<open>2007.0000000000002\<close> milliseconds, and one microsecond on top of
  \<open>2\<^sup>4\<^sup>3\<close> milliseconds is rounded away.
\<close>

lemma elapsed_ms_values:
  "elapsed_ms 0 0 = 0"
  "elapsed_ms 1000000 0 = 1000"
  "elapsed_ms 2000000 0 = 2000"
  "elapsed_ms 3000000 0 = 3000"
  "elapsed_ms 2007000 0 = 2007 + 1 / 2 ^ 42"
  "elapsed_ms 8796093022208001 0 = 8796093022208"
  by code_simp+










section \<open>What the router leaves alone\<close>

lemma get_telegram_notifier_core:
  "get_telegram_notifier e w = (n, w') \<Longrightarrow> same_core w w'"
  by (auto simp: get_telegram_notifier_def same_core_def Let_def split: option.splits prod.splits if_splits)

lemma get_wechat_notifier_core:
  "get_wechat_notifier e w = (n, w') \<Longrightarrow> same_core w w'"
  by (auto simp: get_wechat_notifier_def same_core_def Let_def split: option.splits prod.splits if_splits)

lemma send_via_frame:
  "send_via e m (n, w1) x = (r, (w', x')) \<Longrightarrow> w' = w1 \<and> same_clock x x'"
  by (auto simp: send_via_def notifier_send_def same_clock_def split: option.splits prod.splits send_outcome.splits if_splits)

lemma try_body_frame:
  assumes "try_body e m p (w, x) = (r, (w', x'))"
  shows "same_core w w' \<and> same_clock x x'"
proof -
  consider "p = ''telegram''" | "p \<noteq> ''telegram''" "p = ''wechat''" | "p \<noteq> ''telegram''" "p \<noteq> ''wechat''" by blast
  then show ?thesis
  proof cases
    case 1
    obtain n w1 where g: "get_telegram_notifier e w = (n, w1)" by (cases "get_telegram_notifier e w")
    from assms 1 g have "send_via e m (n, w1) x = (r, (w', x'))" by (simp add: try_body_def)
    from send_via_frame[OF this] get_telegram_notifier_core[OF g] show ?thesis by simp
  next
    case 2
    obtain n w1 where g: "get_wechat_notifier e w = (n, w1)" by (cases "get_wechat_notifier e w")
    from assms 2 g have "send_via e m (n, w1) x = (r, (w', x'))" by (simp add: try_body_def)
    from send_via_frame[OF this] get_wechat_notifier_core[OF g] show ?thesis by simp
  next
    case 3
    with assms show ?thesis by (simp add: try_body_def same_core_def same_clock_def)
  qed
qed

lemma same_core_trans: "same_core a b \<Longrightarrow> same_core b c \<Longrightarrow> same_core a c"
  by (simp add: same_core_def)

lemma same_clock_trans: "same_clock a b \<Longrightarrow> same_clock b c \<Longrightarrow> same_clock a c"
  by (simp add: same_clock_def)

lemma send_loop_frame:
  "send_loop e m ps (w, x) = (r, (w', x')) \<Longrightarrow> same_core w w' \<and> same_clock x x'"
proof (induction ps arbitrary: w x)
  case Nil
  then show ?case by (simp add: same_core_def same_clock_def)
next
  case (Cons p ps)
  obtain b w1 x1 where t: "try_body e m p (w, x) = (b, (w1, x1))"
    by (metis prod.exhaust)
  note f = try_body_frame[OF t]
  show ?case
  proof (cases b)
    case Returned_True
    with Cons.prems t f show ?thesis by simp
  next
    case Completed
    with Cons.prems t have "send_loop e m ps (w1, x1) = (r, (w', x'))" by simp
    from Cons.IH[OF this] f show ?thesis
      using same_core_trans same_clock_trans by blast
  next
    case (Raised exn)
    with Cons.prems t have "send_loop e m ps (w1, x1) = (r, (w', x'))" by simp
    from Cons.IH[OF this] f show ?thesis
      using same_core_trans same_clock_trans by blast
  qed
qed

lemma send_notification_frame:
  assumes "send_notification e m (w, x) = (r, (w', x'))"
  shows "same_core w w' \<and> clock_reads x' = clock_reads x \<and> routed x' = routed x @ [m]"
proof (cases "get_available_notifiers e = []")
  case True
  with assms show ?thesis by (auto simp: send_notification_def same_core_def)
next
  case False
  with assms have "send_loop e m (build_try_order e) (w, x\<lparr>routed := routed x @ [m]\<rparr>) = (r, (w', x'))"
    by (simp add: send_notification_def)
  from send_loop_frame[OF this] show ?thesis by (simp add: same_clock_def)
qed

lemma datetime_now_eq:
  "datetime_now e x = (now e (clock_reads x), x\<lparr>clock_reads := Suc (clock_reads x)\<rparr>)"
  by (simp add: datetime_now_def)

lemma internal_stop_effect:
  assumes "internal_stop e info (w, x) = (r, (w', x'))"
  shows "r \<and> \<not> is_running w' \<and> is_timeout_occurred w' = is_timeout_occurred w \<and>
         timeout_ms w' = timeout_ms w \<and> last_feed_time w' = last_feed_time w \<and>
         start_info w' = start_info w \<and> clock_reads x' = Suc (clock_reads x) \<and>
         routed x' = routed x @ [Auto_Stopped info (now e (clock_reads x))]"
proof -
  obtain b s1 where d: "send_notification e (Auto_Stopped info (now e (clock_reads x)))
      (w\<lparr>is_running := False\<rparr>, x\<lparr>clock_reads := Suc (clock_reads x)\<rparr>) = (b, s1)"
    by (metis prod.exhaust)
  with assms have "r" "s1 = (w', x')"
    by (simp_all add: internal_stop_def datetime_now_eq)
  with d send_notification_frame show ?thesis
    unfolding same_core_def by fastforce
qed

lemma internal_start_effect:
  assumes "internal_start e timeout info (w, x) = (r, (w', x'))"
  shows "r \<and> is_running w' \<and> \<not> is_timeout_occurred w' \<and> timeout_ms w' = timeout \<and>
         last_feed_time w' = Some (now e (clock_reads x)) \<and> start_info w' = info \<and>
         clock_reads x' = Suc (Suc (clock_reads x)) \<and>
         routed x' = routed x @ [Auto_Started timeout info (now e (Suc (clock_reads x)))]"
proof -
  obtain b s1 where d: "send_notification e (Auto_Started timeout info (now e (Suc (clock_reads x))))
      (w\<lparr>timeout_ms := timeout, start_info := info,
         last_feed_time := Some (now e (clock_reads x)), is_running := True,
         is_timeout_occurred := False\<rparr>, x\<lparr>clock_reads := Suc (Suc (clock_reads x))\<rparr>) = (b, s1)"
    by (metis prod.exhaust)
  with assms have "r" "s1 = (w', x')"
    by (simp_all add: internal_start_def datetime_now_eq)
  with d send_notification_frame show ?thesis
    unfolding same_core_def by fastforce
qed

lemma update_timeout_effect:
  assumes "update_timeout e timeout info (w, x) = (r, (w', x'))"
  shows "r \<and> is_running w' = is_running w \<and> is_timeout_occurred w' = is_timeout_occurred w \<and>
         timeout_ms w' = timeout \<and> last_feed_time w' = last_feed_time w \<and>
         start_info w' = start_info w \<and> clock_reads x' = Suc (clock_reads x) \<and>
         routed x' = routed x @ [Timeout_Updated (timeout_ms w) timeout info (now e (clock_reads x))]"
proof -
  obtain b s1 where d: "send_notification e (Timeout_Updated (timeout_ms w) timeout info (now e (clock_reads x)))
      (w\<lparr>timeout_ms := timeout\<rparr>, x\<lparr>clock_reads := Suc (clock_reads x)\<rparr>) = (b, s1)"
    by (metis prod.exhaust)
  with assms have "r" "s1 = (w', x')"
    by (simp_all add: update_timeout_def datetime_now_eq)
  with d send_notification_frame show ?thesis
    unfolding same_core_def by fastforce
qed
section \<open>Feeding and stopping\<close>

text \<open>
  Claim C6. On a running watchdog, \<open>feed\<close> with an explicit threshold \<open>X\<close> returns
  \<^verbatim>\<open>True\<close>, makes \<open>X\<close> the threshold, sets the last feed time to the clock value read
  by this call and clears the timeout flag (the watchdog stays running).
\<close>

theorem feed_running_updates_threshold:
  assumes "is_running w"
  shows "case feed e (Some X) info (w, x) of (r, (w', x')) \<Rightarrow>
           r \<and> timeout_ms w' = X \<and> last_feed_time w' = Some (now e (clock_reads x)) \<and>
           \<not> is_timeout_occurred w' \<and> is_running w'"
proof -
  obtain r w' x' where u: "update_timeout e X info
      (w\<lparr>last_feed_time := Some (now e (clock_reads x)), is_timeout_occurred := False\<rparr>,
       x\<lparr>clock_reads := Suc (clock_reads x)\<rparr>) = (r, (w', x'))"
    by (metis prod.exhaust)
  from assms u have "feed e (Some X) info (w, x) = (True, (w', x'))"
    by (simp add: feed_def datetime_now_eq)
  with update_timeout_effect[OF u] assms show ?thesis by simp
qed

theorem feed_running_updates_threshold_witness:
  "is_running armed \<and>
   (case feed demo_env (Some 5000) ''job'' (armed, world0) of (r, (w', x')) \<Rightarrow>
      r \<and> timeout_ms w' = 5000 \<and> last_feed_time w' = Some (now demo_env (clock_reads world0)) \<and>
      \<not> is_timeout_occurred w' \<and> is_running w')"
proof -
  have h: "is_running armed" by (simp add: armed_def)
  from h feed_running_updates_threshold
    [where w = armed and e = demo_env and X = 5000 and info = "''job''" and x = world0]
  show ?thesis by simp
qed

text \<open>
  Claim C7. On an idle watchdog, \<open>feed\<close> without a threshold returns \<^verbatim>\<open>True\<close> and arms
  it: running, threshold 30000, last feed time the clock value read by this call, timeout
  flag clear.
\<close>

theorem feed_idle_arms_with_default:
  assumes "\<not> is_running w"
  shows "case feed e None info (w, x) of (r, (w', x')) \<Rightarrow>
           r \<and> is_running w' \<and> timeout_ms w' = 30000 \<and>
           last_feed_time w' = Some (now e (clock_reads x)) \<and> \<not> is_timeout_occurred w'"
proof -
  obtain r w' x' where u: "internal_start e 30000 info (w, x) = (r, (w', x'))"
    by (metis prod.exhaust)
  from assms u have "feed e None info (w, x) = (r, (w', x'))"
    by (simp add: feed_def)
  with internal_start_effect[OF u] show ?thesis by simp
qed

theorem feed_idle_arms_with_default_witness:
  "\<not> is_running init \<and>
   (case feed demo_env None [] (init, world0) of (r, (w', x')) \<Rightarrow>
      r \<and> is_running w' \<and> timeout_ms w' = 30000 \<and>
      last_feed_time w' = Some (now demo_env (clock_reads world0)) \<and> \<not> is_timeout_occurred w')"
proof -
  have h: "\<not> is_running init" by (simp add: init_def)
  from h feed_idle_arms_with_default
    [where w = init and e = demo_env and info = "[]" and x = world0]
  show ?thesis by simp
qed

text \<open>
  Claim C8. \<open>manual_stop\<close> on an idle watchdog returns \<^verbatim>\<open>False\<close> and changes neither the
  watchdog nor the outside (no clock read, nothing routed, nothing sent). On a running
  watchdog it returns \<^verbatim>\<open>True\<close> and leaves it idle, whatever the router does with the
  "stopped" message it is handed.
\<close>

theorem manual_stop_idle_and_running:
  "(\<not> is_running w \<longrightarrow> manual_stop e info (w, x) = (False, (w, x))) \<and>
   (is_running w \<longrightarrow>
      (case manual_stop e info (w, x) of (r, (w', x')) \<Rightarrow>
         r \<and> \<not> is_running w' \<and>
         routed x' = routed x @ [Auto_Stopped (''Manual stop - '' @ info) (now e (clock_reads x))]))"
proof (intro conjI impI)
  assume "\<not> is_running w"
  then show "manual_stop e info (w, x) = (False, (w, x))"
    by (simp add: manual_stop_def)
next
  assume run: "is_running w"
  obtain r w' x' where u: "internal_stop e (''Manual stop - '' @ info) (w, x) = (r, (w', x'))"
    by (metis prod.exhaust)
  from run u have "manual_stop e info (w, x) = (True, (w', x'))"
    by (simp add: manual_stop_def)
  with internal_stop_effect[OF u]
  show "case manual_stop e info (w, x) of (r, (w', x')) \<Rightarrow>
         r \<and> \<not> is_running w' \<and>
         routed x' = routed x @ [Auto_Stopped (''Manual stop - '' @ info) (now e (clock_reads x))]"
    by simp
qed

theorem manual_stop_idle_and_running_witness:
  "\<not> is_running init \<and> manual_stop demo_env ''bye'' (init, world0) = (False, (init, world0)) \<and>
   is_running armed \<and>
   (case manual_stop demo_env ''bye'' (armed, world0) of (r, (w', x')) \<Rightarrow>
      r \<and> \<not> is_running w' \<and>
      routed x' = routed world0 @
        [Auto_Stopped (''Manual stop - '' @ ''bye'') (now demo_env (clock_reads world0))])"
proof -
  have h1: "\<not> is_running init" by (simp add: init_def)
  have h2: "is_running armed" by (simp add: armed_def)
  from h1 h2
    manual_stop_idle_and_running
      [where w = init and e = demo_env and info = "''bye''" and x = world0]
    manual_stop_idle_and_running
      [where w = armed and e = demo_env and info = "''bye''" and x = world0]
  show ?thesis by simp
qed

section \<open>Notifying\<close>

lemma build_timeout_message_effect:
  assumes "build_timeout_message e w x = (alert, x2)"
  shows "tag alert = ''[WATCHDOG] Timeout Alert!'' \<and> routed x2 = routed x \<and> sent x2 = sent x"
  using assms
  by (auto simp: build_timeout_message_def datetime_now_eq Let_def split: option.splits)

lemma notify_running:
  assumes "is_running w"
    and "build_timeout_message e w x = (alert, x2)"
    and "send_notification e alert (w, x2) = (sent1, (w3, x3))"
    and "internal_stop e ''Timeout occurred'' (w3, x3) = (stopped, s4)"
  shows "notify e (w, x) = (sent1, s4)"
  using assms by (simp add: notify_def)

lemma notify_idle: "\<not> is_running w \<Longrightarrow> notify e (w, x) = (False, (w, x))"
  by (simp add: notify_def)

lemmas eval_defs = demo_env_def dead_env_def scenario_env_def world0_def armed_def init_def
  notify_def build_timeout_message_def datetime_now_def elapsed_ms_values
  send_notification_def build_try_order_def try_body_def send_via_def notifier_send_def
  get_telegram_notifier_def get_wechat_notifier_def internal_stop_def internal_start_def
  feed_def poll_def manual_stop_def update_timeout_def Let_def

text \<open>
  Claim C3. \<open>notify\<close> on an idle watchdog returns \<^verbatim>\<open>False\<close> and changes nothing. On a
  running watchdog it hands the timeout alert to the router, returns the truth value the
  router returned for that alert, and leaves the watchdog idle whatever that value is.
\<close>

theorem notify_stops_whatever_router_returns:
  "(\<not> is_running w \<longrightarrow> notify e (w, x) = (False, (w, x))) \<and>
   (is_running w \<longrightarrow>
      (case build_timeout_message e w x of (alert, x2) \<Rightarrow>
         tag alert = ''[WATCHDOG] Timeout Alert!'' \<and>
         fst (notify e (w, x)) = fst (send_notification e alert (w, x2)) \<and>
         \<not> is_running (fst (snd (notify e (w, x))))))"
proof (intro conjI impI)
  assume "\<not> is_running w"
  then show "notify e (w, x) = (False, (w, x))" by (rule notify_idle)
next
  assume run: "is_running w"
  obtain alert x2 where a: "build_timeout_message e w x = (alert, x2)"
    by (metis prod.exhaust)
  obtain sent1 w3 x3 where d: "send_notification e alert (w, x2) = (sent1, (w3, x3))"
    by (metis prod.exhaust)
  obtain stopped w4 x4 where st:
    "internal_stop e ''Timeout occurred'' (w3, x3) = (stopped, (w4, x4))"
    by (metis prod.exhaust)
  from notify_running[OF run a d st] internal_stop_effect[OF st]
    build_timeout_message_effect[OF a] a d
  show "case build_timeout_message e w x of (alert, x2) \<Rightarrow>
         tag alert = ''[WATCHDOG] Timeout Alert!'' \<and>
         fst (notify e (w, x)) = fst (send_notification e alert (w, x2)) \<and>
         \<not> is_running (fst (snd (notify e (w, x))))"
    by simp
qed

theorem notify_stops_whatever_router_returns_witness:
  "\<not> is_running init \<and> notify demo_env (init, world0) = (False, (init, world0)) \<and>
   is_running armed \<and>
   fst (notify demo_env (armed, world0)) \<and>
   \<not> is_running (fst (snd (notify demo_env (armed, world0)))) \<and>
   \<not> fst (notify dead_env (armed, world0)) \<and>
   \<not> is_running (fst (snd (notify dead_env (armed, world0))))"
proof -
  have h1: "\<not> is_running init" by (simp add: init_def)
  have h2: "is_running armed" by (simp add: armed_def)
  have d1: "fst (notify demo_env (armed, world0))" by (simp add: eval_defs)
  have d2: "\<not> fst (notify dead_env (armed, world0))" by (simp add: eval_defs)
  from h1 h2 d1 d2
    notify_stops_whatever_router_returns[where w = init and e = demo_env and x = world0]
    notify_stops_whatever_router_returns[where w = armed and e = demo_env and x = world0]
    notify_stops_whatever_router_returns[where w = armed and e = dead_env and x = world0]
  show ?thesis by (simp add: split_def)
qed

text \<open>
  Claim C10. One call of \<open>notify\<close> on a running watchdog enters the router twice: with
  the timeout alert, and then, from the automatic stop, with the "stopped" message whose
  reason is "Timeout occurred". The call returns what the first dispatch returned; the
  result of the second is dropped.
\<close>

theorem notify_routes_alert_then_stop:
  assumes "is_running w"
  shows "case build_timeout_message e w x of (alert, x2) \<Rightarrow>
         case send_notification e alert (w, x2) of (sent1, (w3, x3)) \<Rightarrow>
         case send_notification e (Auto_Stopped ''Timeout occurred'' (now e (clock_reads x3)))
                (w3\<lparr>is_running := False\<rparr>, x3\<lparr>clock_reads := Suc (clock_reads x3)\<rparr>)
           of (sent2, s4) \<Rightarrow>
             notify e (w, x) = (sent1, s4) \<and>
             routed (snd s4) =
               routed x @ [alert, Auto_Stopped ''Timeout occurred'' (now e (clock_reads x3))] \<and>
             tag alert = ''[WATCHDOG] Timeout Alert!'' \<and>
             tag (Auto_Stopped ''Timeout occurred'' (now e (clock_reads x3))) =
               ''[WATCHDOG] Auto-Stopped''"
proof -
  obtain alert x2 where a: "build_timeout_message e w x = (alert, x2)"
    by (metis prod.exhaust)
  obtain sent1 w3 x3 where d: "send_notification e alert (w, x2) = (sent1, (w3, x3))"
    by (metis prod.exhaust)
  obtain sent2 w4 x4 where d2:
    "send_notification e (Auto_Stopped ''Timeout occurred'' (now e (clock_reads x3)))
       (w3\<lparr>is_running := False\<rparr>, x3\<lparr>clock_reads := Suc (clock_reads x3)\<rparr>) = (sent2, (w4, x4))"
    by (metis prod.exhaust)
  from d2 have st: "internal_stop e ''Timeout occurred'' (w3, x3) = (True, (w4, x4))"
    by (simp add: internal_stop_def datetime_now_eq)
  have r1: "routed x3 = routed x @ [alert]"
    using send_notification_frame[OF d] build_timeout_message_effect[OF a] by simp
  have r2: "routed x4 = routed x3 @ [Auto_Stopped ''Timeout occurred'' (now e (clock_reads x3))]"
    using send_notification_frame[OF d2] by simp
  from notify_running[OF assms a d st] r1 r2 build_timeout_message_effect[OF a] a d d2
  show ?thesis by simp
qed

theorem notify_routes_alert_then_stop_witness:
  "is_running armed \<and>
   fst (notify demo_env (armed, world0)) \<and>
   \<not> fst (send_notification demo_env (Auto_Stopped ''Timeout occurred'' 2000000)
            (armed\<lparr>is_running := False\<rparr>, world0)) \<and>
   map tag (routed (snd (snd (notify demo_env (armed, world0))))) =
     [''[WATCHDOG] Timeout Alert!'', ''[WATCHDOG] Auto-Stopped'']"
proof -
  have h: "is_running armed" by (simp add: armed_def)
  have d2: "\<not> fst (send_notification demo_env (Auto_Stopped ''Timeout occurred'' 2000000)
            (armed\<lparr>is_running := False\<rparr>, world0))"
    by (simp add: eval_defs)
  have w0: "routed world0 = []" by (simp add: world0_def)
  from notify_routes_alert_then_stop[OF h, where e = demo_env and x = world0]
  have "fst (notify demo_env (armed, world0)) =
          fst (send_notification demo_env (fst (build_timeout_message demo_env armed world0))
                 (armed, snd (build_timeout_message demo_env armed world0))) \<and>
        map tag (routed (snd (snd (notify demo_env (armed, world0))))) =
          [''[WATCHDOG] Timeout Alert!'', ''[WATCHDOG] Auto-Stopped'']"
    by (simp add: split_def w0)
  moreover have "fst (send_notification demo_env (fst (build_timeout_message demo_env armed world0))
                 (armed, snd (build_timeout_message demo_env armed world0)))"
    by (simp add: eval_defs)
  ultimately show ?thesis using h d2 by simp
qed

section \<open>Invariants of the reachable states\<close>

lemma feed_effect:
  assumes "feed e timeout info (w, x) = (r, (w', x'))"
  shows "r \<and> is_running w' \<and> \<not> is_timeout_occurred w' \<and> last_feed_time w' \<noteq> None"
proof (cases "is_running w")
  case False
  with assms have "internal_start e (case timeout of Some t \<Rightarrow> t | None \<Rightarrow> 30000) info (w, x)
      = (r, (w', x'))"
    by (simp add: feed_def)
  from internal_start_effect[OF this] show ?thesis by simp
next
  case True
  show ?thesis
  proof (cases timeout)
    case None
    with True assms show ?thesis
      by (auto simp: feed_def datetime_now_eq)
  next
    case (Some t)
    obtain b w1 x1 where u: "update_timeout e t info
        (w\<lparr>last_feed_time := Some (now e (clock_reads x)), is_timeout_occurred := False\<rparr>,
         x\<lparr>clock_reads := Suc (clock_reads x)\<rparr>) = (b, (w1, x1))"
      by (metis prod.exhaust)
    with True Some assms have "r" "w' = w1"
      by (simp_all add: feed_def datetime_now_eq)
    with update_timeout_effect[OF u] True show ?thesis by simp
  qed
qed

lemma poll_effect:
  assumes "poll e (w, x) = (r, (w', x'))"
  shows "is_running w' = is_running w \<and> last_feed_time w' = last_feed_time w \<and>
         timeout_ms w' = timeout_ms w \<and> routed x' = routed x \<and> sent x' = sent x"
  using assms
  by (auto simp: poll_def datetime_now_eq Let_def split: if_splits option.splits)

lemma notify_effect:
  assumes "notify e (w, x) = (r, (w', x'))"
  shows "\<not> is_running w' \<and> is_timeout_occurred w' = is_timeout_occurred w \<and>
         last_feed_time w' = last_feed_time w"
proof (cases "is_running w")
  case False
  with assms show ?thesis by (simp add: notify_idle)
next
  case True
  obtain alert x2 where a: "build_timeout_message e w x = (alert, x2)"
    by (metis prod.exhaust)
  obtain sent1 w3 x3 where d: "send_notification e alert (w, x2) = (sent1, (w3, x3))"
    by (metis prod.exhaust)
  obtain stopped w4 x4 where st:
    "internal_stop e ''Timeout occurred'' (w3, x3) = (stopped, (w4, x4))"
    by (metis prod.exhaust)
  from notify_running[OF True a d st] assms have "w' = w4" by simp
  with internal_stop_effect[OF st] send_notification_frame[OF d] show ?thesis
    by (simp add: same_core_def)
qed

lemma manual_stop_effect:
  assumes "manual_stop e info (w, x) = (r, (w', x'))"
  shows "\<not> is_running w' \<and> is_timeout_occurred w' = is_timeout_occurred w \<and>
         last_feed_time w' = last_feed_time w"
proof (cases "is_running w")
  case False
  with assms show ?thesis by (simp add: manual_stop_def)
next
  case True
  obtain b w1 x1 where st:
    "internal_stop e (''Manual stop - '' @ info) (w, x) = (b, (w1, x1))"
    by (metis prod.exhaust)
  with True assms have "w' = w1" by (simp add: manual_stop_def)
  with internal_stop_effect[OF st] show ?thesis by simp
qed

lemma reachable_running_fed:
  "reachable s \<Longrightarrow> is_running (fst s) \<Longrightarrow> last_feed_time (fst s) \<noteq> None"
proof (induction rule: reachable.induct)
  case (reach_init x)
  then show ?case by (simp add: init_def)
next
  case (reach_feed s e timeout string_info)
  obtain w x where s: "s = (w, x)" by (cases s)
  obtain r w' x' where f: "feed e timeout string_info (w, x) = (r, (w', x'))"
    by (metis prod.exhaust)
  from feed_effect[OF f] s f show ?case by simp
next
  case (reach_poll s e)
  obtain w x where s: "s = (w, x)" by (cases s)
  obtain r w' x' where f: "poll e (w, x) = (r, (w', x'))"
    by (metis prod.exhaust)
  from poll_effect[OF f] s f reach_poll show ?case by simp
next
  case (reach_notify s e)
  obtain w x where s: "s = (w, x)" by (cases s)
  obtain r w' x' where f: "notify e (w, x) = (r, (w', x'))"
    by (metis prod.exhaust)
  from notify_effect[OF f] s f reach_notify show ?case by simp
next
  case (reach_manual_stop s e string_info)
  obtain w x where s: "s = (w, x)" by (cases s)
  obtain r w' x' where f: "manual_stop e string_info (w, x) = (r, (w', x'))"
    by (metis prod.exhaust)
  from manual_stop_effect[OF f] s f reach_manual_stop show ?case by simp
qed

lemma poll_true_cases:
  assumes "fst (poll e (w, x))"
  shows "is_running w \<and>
         (last_feed_time w = None \<or>
          (\<exists>last_feed. last_feed_time w = Some last_feed \<and>
             of_int (timeout_ms w) < elapsed_ms (now e (clock_reads x)) last_feed \<and>
             \<not> is_timeout_occurred w \<and> is_timeout_occurred (fst (snd (poll e (w, x))))))"
  using assms
  by (auto simp: poll_def datetime_now_eq Let_def split: if_splits option.splits)

text \<open>
  Claim C9. In every reachable state a running watchdog has a last feed time. So the
  branch of \<open>poll\<close> that returns \<^verbatim>\<open>True\<close> for a running watchdog without a last feed time
  is never taken: whenever \<open>poll\<close> returns \<^verbatim>\<open>True\<close> in a reachable state, there is a last
  feed time, the elapsed time exceeds the threshold, and the call has set the flag.
\<close>

theorem running_implies_last_feed_time:
  assumes "reachable s"
  shows "(is_running (fst s) \<longrightarrow> last_feed_time (fst s) \<noteq> None) \<and>
         (fst (poll e s) \<longrightarrow>
            (\<exists>last_feed. last_feed_time (fst s) = Some last_feed \<and>
               of_int (timeout_ms (fst s)) < elapsed_ms (now e (clock_reads (snd s))) last_feed \<and>
               \<not> is_timeout_occurred (fst s) \<and> is_timeout_occurred (fst (snd (poll e s)))))"
proof (intro conjI impI)
  assume "is_running (fst s)"
  with assms show "last_feed_time (fst s) \<noteq> None" by (rule reachable_running_fed)
next
  assume p: "fst (poll e s)"
  obtain w x where s: "s = (w, x)" by (cases s)
  from p s poll_true_cases[of e w x] have run: "is_running w" by simp
  with assms s have "last_feed_time w \<noteq> None" using reachable_running_fed by fastforce
  with p s poll_true_cases[of e w x]
  show "\<exists>last_feed. last_feed_time (fst s) = Some last_feed \<and>
               of_int (timeout_ms (fst s)) < elapsed_ms (now e (clock_reads (snd s))) last_feed \<and>
               \<not> is_timeout_occurred (fst s) \<and> is_timeout_occurred (fst (snd (poll e s)))"
    by simp
qed

theorem running_implies_last_feed_time_witness:
  "reachable (snd (feed demo_env (Some 0) [] (init, world0))) \<and>
   is_running (fst (snd (feed demo_env (Some 0) [] (init, world0)))) \<and>
   last_feed_time (fst (snd (feed demo_env (Some 0) [] (init, world0)))) \<noteq> None \<and>
   fst (poll demo_env (snd (feed demo_env (Some 0) [] (init, world0)))) \<and>
   is_timeout_occurred
     (fst (snd (poll demo_env (snd (feed demo_env (Some 0) [] (init, world0))))))"
proof -
  have r: "reachable (snd (feed demo_env (Some 0) [] (init, world0)))"
    by (rule reach_feed) (rule reach_init)
  have run: "is_running (fst (snd (feed demo_env (Some 0) [] (init, world0))))"
    by (simp add: eval_defs)
  have p: "fst (poll demo_env (snd (feed demo_env (Some 0) [] (init, world0))))"
    by (simp add: eval_defs)
  from running_implies_last_feed_time[OF r, where e = demo_env] run p r
  show ?thesis by blast
qed

text \<open>
  Claim C1, as amended. The timeout flag is clear in the freshly constructed watchdog and
  after every \<open>feed\<close>, whether it arms the watchdog or refreshes it. The two operations
  that make the watchdog idle, \<open>notify\<close> and \<open>manual_stop\<close>, do make it idle and leave the
  flag as it was: the flag is reset when the watchdog is fed again, not when it stops.
\<close>

theorem timeout_flag_reset_by_feed_not_by_stop:
  "\<not> is_timeout_occurred init \<and>
   \<not> is_timeout_occurred (fst (snd (feed e timeout info s))) \<and>
   \<not> is_running (fst (snd (notify e s))) \<and>
   is_timeout_occurred (fst (snd (notify e s))) = is_timeout_occurred (fst s) \<and>
   \<not> is_running (fst (snd (manual_stop e info s))) \<and>
   is_timeout_occurred (fst (snd (manual_stop e info s))) = is_timeout_occurred (fst s)"
proof -
  obtain w x where s: "s = (w, x)" by (cases s)
  obtain r1 w1 x1 where f: "feed e timeout info (w, x) = (r1, (w1, x1))"
    by (metis prod.exhaust)
  obtain r2 w2 x2 where n: "notify e (w, x) = (r2, (w2, x2))"
    by (metis prod.exhaust)
  obtain r3 w3 x3 where m: "manual_stop e info (w, x) = (r3, (w3, x3))"
    by (metis prod.exhaust)
  from feed_effect[OF f] notify_effect[OF n] manual_stop_effect[OF m] s f n m
  show ?thesis by (simp add: init_def)
qed

text \<open>
  The invariant as the specification states it (not running implies flag clear) fails:
  arm with threshold 0, poll later (the flag is set), let \<open>notify\<close> stop the watchdog.
  The state is reachable, idle, and its flag is still set.
\<close>

theorem idle_with_timeout_flag_set:
  "reachable idle_latched \<and> \<not> is_running (fst idle_latched) \<and>
   is_timeout_occurred (fst idle_latched)"
proof -
  have "reachable idle_latched"
    unfolding idle_latched_def
    by (intro reach_notify reach_poll reach_feed reach_init)
  moreover have "\<not> is_running (fst idle_latched)"
    by (simp add: idle_latched_def eval_defs)
  moreover have "is_timeout_occurred (fst idle_latched)"
    by (simp add: idle_latched_def eval_defs)
  ultimately show ?thesis by simp
qed

section \<open>Polling\<close>












section \<open>The router\<close>

subsection \<open>The try order\<close>

lemma set_first_occurrences: "set (first_occurrences ps) = set ps"
  by (induction ps) auto

lemma distinct_first_occurrences: "distinct (first_occurrences ps)"
  by (induction ps) (auto simp: set_first_occurrences)

lemma first_occurrences_distinct: "distinct ps \<Longrightarrow> first_occurrences ps = ps"
proof (induction ps)
  case Nil
  show ?case by simp
next
  case (Cons p ps)
  then have "filter (\<lambda>q. q \<noteq> p) ps = ps" by (auto intro: filter_True)
  with Cons show ?case by simp
qed

lemma add_alternatives_eq:
  "add_alternatives ps acc = acc @ filter (\<lambda>q. q \<notin> set acc) (first_occurrences ps)"
proof (induction ps arbitrary: acc)
  case Nil
  show ?case by simp
next
  case (Cons p ps)
  show ?case
  proof (cases "p \<in> set acc")
    case True
    then have "filter (\<lambda>q. q \<notin> set acc) (filter (\<lambda>q. q \<noteq> p) (first_occurrences ps))
             = filter (\<lambda>q. q \<notin> set acc) (first_occurrences ps)"
      by (auto intro: filter_cong)
    with True Cons.IH[of acc] show ?thesis by simp
  next
    case False
    have "filter (\<lambda>q. q \<notin> set (acc @ [p])) (first_occurrences ps)
        = filter (\<lambda>q. q \<notin> set acc) (filter (\<lambda>q. q \<noteq> p) (first_occurrences ps))"
      by (auto intro: filter_cong)
    with False Cons.IH[of "acc @ [p]"] show ?thesis by simp
  qed
qed

lemma distinct_add_alternatives:
  "distinct acc \<Longrightarrow> distinct (add_alternatives ps acc)"
  by (auto simp: add_alternatives_eq distinct_first_occurrences)

lemma build_try_order_eq:
  "build_try_order e =
     (if get_default_ext_notify e \<noteq> [] \<and>
         get_default_ext_notify e \<in> set (get_available_notifiers e)
      then get_default_ext_notify e #
           filter (\<lambda>p. p \<noteq> get_default_ext_notify e)
             (first_occurrences (get_available_notifiers e))
      else first_occurrences (get_available_notifiers e))"
  by (simp add: build_try_order_def add_alternatives_eq Let_def)

lemma distinct_build_try_order: "distinct (build_try_order e)"
  by (simp add: build_try_order_def Let_def distinct_add_alternatives)

subsection \<open>One platform\<close>

lemma notifier_for_telegram_stable:
  "notifier_for e (snd (get_telegram_notifier e w)) q = notifier_for e w q"
  by (auto simp: notifier_for_def get_telegram_notifier_def get_wechat_notifier_def Let_def
      split: option.splits prod.splits)

lemma notifier_for_wechat_stable:
  "notifier_for e (snd (get_wechat_notifier e w)) q = notifier_for e w q"
  by (auto simp: notifier_for_def get_telegram_notifier_def get_wechat_notifier_def Let_def
      split: option.splits prod.splits)

lemma send_via_result:
  "send_via e m (n, w1) x = (r, (w', x')) \<Longrightarrow>
     w' = w1 \<and>
     (r = Returned_True \<longleftrightarrow> (case n of None \<Rightarrow> False | Some k \<Rightarrow> send_message e k m = Returns True)) \<and>
     sent x' = sent x @ (case n of None \<Rightarrow> [] | Some k \<Rightarrow> [(k, m)])"
  by (auto simp: send_via_def notifier_send_def
      split: option.splits prod.splits send_outcome.splits if_splits)

lemma try_body_stable:
  assumes "try_body e m p (w, x) = (r, (w', x'))"
  shows "notifier_for e w' q = notifier_for e w q"
proof -
  consider "p = ''telegram''" | "p \<noteq> ''telegram''" "p = ''wechat''"
    | "p \<noteq> ''telegram''" "p \<noteq> ''wechat''" by blast
  then show ?thesis
  proof cases
    case 1
    from assms 1 have "send_via e m (fst (get_telegram_notifier e w), snd (get_telegram_notifier e w)) x
        = (r, (w', x'))"
      by (simp add: try_body_def)
    from send_via_result[OF this] show ?thesis
      by (simp add: notifier_for_telegram_stable)
  next
    case 2
    from assms 2 have "send_via e m (fst (get_wechat_notifier e w), snd (get_wechat_notifier e w)) x
        = (r, (w', x'))"
      by (simp add: try_body_def)
    from send_via_result[OF this] show ?thesis
      by (simp add: notifier_for_wechat_stable)
  next
    case 3
    with assms show ?thesis by (simp add: try_body_def)
  qed
qed

lemma try_body_via:
  "try_body e m p (w, x) =
     send_via e m (notifier_for e w p,
       if p = ''telegram'' then snd (get_telegram_notifier e w)
       else if p = ''wechat'' then snd (get_wechat_notifier e w) else w) x"
proof -
  have "send_via e m (None, w) x = (Completed, (w, x))" by (simp add: send_via_def)
  then show ?thesis by (simp add: try_body_def notifier_for_def)
qed

lemma try_body_result:
  assumes "try_body e m p (w, x) = (r, (w', x'))"
  shows "(\<forall>q. notifier_for e w' q = notifier_for e w q) \<and>
         (r = Returned_True \<longleftrightarrow> succeeds e w m p) \<and>
         sent x' = sent x @ attempts e w m [p]"
proof -
  from assms have "send_via e m (notifier_for e w p,
       if p = ''telegram'' then snd (get_telegram_notifier e w)
       else if p = ''wechat'' then snd (get_wechat_notifier e w) else w) x = (r, (w', x'))"
    by (simp only: try_body_via)
  from send_via_result[OF this] try_body_stable[OF assms] show ?thesis
    by (simp add: succeeds_def split: option.splits)
qed

lemma succeeds_cong:
  "(\<forall>q. notifier_for e w' q = notifier_for e w q) \<Longrightarrow> succeeds e w' m = succeeds e w m"
  by (rule ext) (simp add: succeeds_def)

lemma attempts_cong:
  "(\<forall>q. notifier_for e w' q = notifier_for e w q) \<Longrightarrow> attempts e w' m ps = attempts e w m ps"
  by (induction ps) (auto split: option.splits)

subsection \<open>The loop\<close>

lemma send_loop_result:
  "send_loop e m ps (w, x) = (b, (w', x')) \<Longrightarrow>
     (b \<longleftrightarrow> (\<exists>p\<in>set ps. succeeds e w m p)) \<and>
     sent x' = sent x @ attempts e w m (upto_first (succeeds e w m) ps)"
proof (induction ps arbitrary: w x)
  case Nil
  then show ?case by simp
next
  case (Cons p ps)
  obtain r w1 x1 where t: "try_body e m p (w, x) = (r, (w1, x1))"
    by (metis prod.exhaust)
  note tr = try_body_result[OF t]
  from tr have st: "\<forall>q. notifier_for e w1 q = notifier_for e w q" by simp
  show ?case
  proof (cases "succeeds e w m p")
    case True
    with tr have "r = Returned_True" by simp
    with Cons.prems t have "b" "x' = x1" by simp_all
    with tr True show ?thesis by simp
  next
    case False
    with tr have "r \<noteq> Returned_True" by simp
    with Cons.prems t have "send_loop e m ps (w1, x1) = (b, (w', x'))"
      by (cases r) simp_all
    from Cons.IH[OF this] have
      "b \<longleftrightarrow> (\<exists>p\<in>set ps. succeeds e w1 m p)"
      "sent x' = sent x1 @ attempts e w1 m (upto_first (succeeds e w1 m) ps)"
      by simp_all
    with succeeds_cong[OF st] attempts_cong[OF st] tr False show ?thesis
      by (simp split: option.splits)
  qed
qed

lemma upto_first_none: "\<forall>p\<in>set ps. \<not> P p \<Longrightarrow> upto_first P ps = ps"
  by (induction ps) simp_all

lemma upto_first_at:
  "k < length ps \<Longrightarrow> P (ps ! k) \<Longrightarrow> \<forall>j<k. \<not> P (ps ! j) \<Longrightarrow> upto_first P ps = take (Suc k) ps"
proof (induction ps arbitrary: k)
  case Nil
  then show ?case by simp
next
  case (Cons p ps)
  show ?case
  proof (cases k)
    case 0
    with Cons.prems show ?thesis by simp
  next
    case (Suc k')
    with Cons.prems have "\<not> P p" by fastforce
    moreover from Suc Cons.prems have "k' < length ps" "P (ps ! k')" by simp_all
    moreover from Suc Cons.prems have "\<forall>j<k'. \<not> P (ps ! j)" by fastforce
    ultimately show ?thesis using Cons.IH[of k'] Suc by simp
  qed
qed

lemma attempts_all:
  "\<forall>p\<in>set ps. notifier_for e w p \<noteq> None \<Longrightarrow> length (attempts e w m ps) = length ps"
  by (induction ps) (auto split: option.splits)

lemma send_notification_result:
  assumes "get_available_notifiers e \<noteq> []"
  shows "(fst (send_notification e m (w, x)) \<longleftrightarrow>
            (\<exists>p\<in>set (build_try_order e). succeeds e w m p)) \<and>
         sent (snd (snd (send_notification e m (w, x)))) =
           sent x @ attempts e w m (upto_first (succeeds e w m) (build_try_order e))"
proof -
  obtain b w' x' where l:
    "send_loop e m (build_try_order e) (w, x\<lparr>routed := routed x @ [m]\<rparr>) = (b, (w', x'))"
    by (metis prod.exhaust)
  from assms l have "send_notification e m (w, x) = (b, (w', x'))"
    by (simp add: send_notification_def)
  with send_loop_result[OF l] show ?thesis by simp
qed

lemma send_notification_none:
  "get_available_notifiers e = [] \<Longrightarrow>
     send_notification e m (w, x) = (False, (w, x\<lparr>routed := routed x @ [m]\<rparr>))"
  by (simp add: send_notification_def)

subsection \<open>Order, first success, total failure\<close>

text \<open>
  Claim C4. The try order is the default platform, when it is set and enabled, followed
  by the enabled platforms in their enumerated order without the default and without
  repetitions; no platform occurs in it twice. With no enabled platform the dispatch
  returns \<^verbatim>\<open>False\<close> and sends nothing. If the \<open>k\<close>-th platform of the try order (counting
  from 1) is the first whose send returns \<^verbatim>\<open>True\<close>, the dispatch returns \<^verbatim>\<open>True\<close> and the
  sends it made are those of the first \<open>k\<close> platforms, in order, and of no other: \<open>k\<close> sends
  when each of these platforms has a notifier (a platform the loop does not know, or
  one without credentials, is passed over without a send). If no platform of the try
  order succeeds, the dispatch returns \<^verbatim>\<open>False\<close> after the sends of all of them.
\<close>

theorem router_tries_in_order_until_first_success:
  "build_try_order e =
     (if get_default_ext_notify e \<noteq> [] \<and>
         get_default_ext_notify e \<in> set (get_available_notifiers e)
      then get_default_ext_notify e #
           filter (\<lambda>p. p \<noteq> get_default_ext_notify e)
             (first_occurrences (get_available_notifiers e))
      else first_occurrences (get_available_notifiers e)) \<and>
   (distinct (get_available_notifiers e) \<longrightarrow>
      first_occurrences (get_available_notifiers e) = get_available_notifiers e) \<and>
   distinct (build_try_order e) \<and>
   (get_available_notifiers e = [] \<longrightarrow>
      send_notification e m (w, x) = (False, (w, x\<lparr>routed := routed x @ [m]\<rparr>))) \<and>
   (0 < k \<and> k \<le> length (build_try_order e) \<and>
    succeeds e w m (build_try_order e ! (k - 1)) \<and>
    (\<forall>j<k - 1. \<not> succeeds e w m (build_try_order e ! j)) \<longrightarrow>
      fst (send_notification e m (w, x)) \<and>
      sent (snd (snd (send_notification e m (w, x)))) =
        sent x @ attempts e w m (take k (build_try_order e)) \<and>
      ((\<forall>p\<in>set (take k (build_try_order e)). notifier_for e w p \<noteq> None) \<longrightarrow>
         length (attempts e w m (take k (build_try_order e))) = k)) \<and>
   ((\<forall>p\<in>set (build_try_order e). \<not> succeeds e w m p) \<longrightarrow>
      \<not> fst (send_notification e m (w, x)) \<and>
      sent (snd (snd (send_notification e m (w, x)))) =
        sent x @ attempts e w m (build_try_order e) \<and>
      ((\<forall>p\<in>set (build_try_order e). notifier_for e w p \<noteq> None) \<longrightarrow>
         length (attempts e w m (build_try_order e)) = length (build_try_order e)))"
proof (intro conjI impI)
  show "build_try_order e =
     (if get_default_ext_notify e \<noteq> [] \<and>
         get_default_ext_notify e \<in> set (get_available_notifiers e)
      then get_default_ext_notify e #
           filter (\<lambda>p. p \<noteq> get_default_ext_notify e)
             (first_occurrences (get_available_notifiers e))
      else first_occurrences (get_available_notifiers e))"
    by (rule build_try_order_eq)
next
  assume "distinct (get_available_notifiers e)"
  then show "first_occurrences (get_available_notifiers e) = get_available_notifiers e"
    by (rule first_occurrences_distinct)
next
  show "distinct (build_try_order e)" by (rule distinct_build_try_order)
next
  assume "get_available_notifiers e = []"
  then show "send_notification e m (w, x) = (False, (w, x\<lparr>routed := routed x @ [m]\<rparr>))"
    by (rule send_notification_none)
next
  assume h: "0 < k \<and> k \<le> length (build_try_order e) \<and>
    succeeds e w m (build_try_order e ! (k - 1)) \<and>
    (\<forall>j<k - 1. \<not> succeeds e w m (build_try_order e ! j))"
  then have k: "0 < k" "k \<le> length (build_try_order e)" by simp_all
  then have lt: "k - 1 < length (build_try_order e)" and sk: "Suc (k - 1) = k" by arith+
  from h have "build_try_order e \<noteq> []" by auto
  then have av: "get_available_notifiers e \<noteq> []"
    by (auto simp: build_try_order_def)
  from h lt have ex: "\<exists>p\<in>set (build_try_order e). succeeds e w m p"
    using nth_mem by blast
  from h lt have up: "upto_first (succeeds e w m) (build_try_order e) = take k (build_try_order e)"
    using upto_first_at[of "k - 1" "build_try_order e" "succeeds e w m"] sk by simp
  from send_notification_result[OF av, of m w x] ex
  show "fst (send_notification e m (w, x))" by simp
  from send_notification_result[OF av, of m w x] up
  show "sent (snd (snd (send_notification e m (w, x)))) =
        sent x @ attempts e w m (take k (build_try_order e))" by simp
  assume "\<forall>p\<in>set (take k (build_try_order e)). notifier_for e w p \<noteq> None"
  from attempts_all[OF this] h
  show "length (attempts e w m (take k (build_try_order e))) = k" by simp
next
  assume h: "\<forall>p\<in>set (build_try_order e). \<not> succeeds e w m p"
  have r: "\<not> fst (send_notification e m (w, x)) \<and>
        sent (snd (snd (send_notification e m (w, x)))) =
          sent x @ attempts e w m (build_try_order e)"
  proof (cases "get_available_notifiers e = []")
    case True
    then have "build_try_order e = []" by (simp add: build_try_order_def)
    with send_notification_none[OF True, of m w x] show ?thesis by simp
  next
    case False
    from send_notification_result[OF False, of m w x] h upto_first_none[OF h]
    show ?thesis by simp
  qed
  from r show "\<not> fst (send_notification e m (w, x))" by simp
  from r show "sent (snd (snd (send_notification e m (w, x)))) =
        sent x @ attempts e w m (build_try_order e)" by simp
  assume "\<forall>p\<in>set (build_try_order e). notifier_for e w p \<noteq> None"
  then show "length (attempts e w m (build_try_order e)) = length (build_try_order e)"
    by (rule attempts_all)
qed

theorem router_tries_in_order_until_first_success_witness:
  "build_try_order demo_env = [''telegram'', ''wechat''] \<and>
   fst (send_notification demo_env hello (init, world0)) \<and>
   sent (snd (snd (send_notification demo_env hello (init, world0)))) =
     [(TelegramNotifier ''token'' ''chat'', hello), (WeChatWorkNotifier ''key'', hello)] \<and>
   \<not> fst (send_notification failing_env hello (init, world0)) \<and>
   sent (snd (snd (send_notification failing_env hello (init, world0)))) =
     [(TelegramNotifier ''token'' ''chat'', hello), (WeChatWorkNotifier ''key'', hello)] \<and>
   send_notification dead_env hello (init, world0) =
     (False, (init, world0\<lparr>routed := routed world0 @ [hello]\<rparr>))"
proof -
  have o1: "build_try_order demo_env = [''telegram'', ''wechat'']"
    by (simp add: build_try_order_def demo_env_def Let_def)
  have o2: "build_try_order failing_env = [''telegram'', ''wechat'']"
    by (simp add: build_try_order_def failing_env_def demo_env_def Let_def)
  have n1: "notifier_for demo_env init ''telegram'' = Some (TelegramNotifier ''token'' ''chat'')"
    "notifier_for demo_env init ''wechat'' = Some (WeChatWorkNotifier ''key'')"
    by (simp_all add: notifier_for_def get_telegram_notifier_def get_wechat_notifier_def
        demo_env_def init_def Let_def)
  have n2: "notifier_for failing_env init ''telegram'' = Some (TelegramNotifier ''token'' ''chat'')"
    "notifier_for failing_env init ''wechat'' = Some (WeChatWorkNotifier ''key'')"
    by (simp_all add: notifier_for_def get_telegram_notifier_def get_wechat_notifier_def
        failing_env_def demo_env_def init_def Let_def)
  have s1: "\<not> succeeds demo_env init hello ''telegram''" "succeeds demo_env init hello ''wechat''"
    by (simp_all add: succeeds_def n1) (simp_all add: demo_env_def hello_def)
  have s2: "\<not> succeeds failing_env init hello ''telegram''"
    "\<not> succeeds failing_env init hello ''wechat''"
    by (simp_all add: succeeds_def n2) (simp_all add: failing_env_def)
  have h1: "0 < (2::nat) \<and> 2 \<le> length (build_try_order demo_env) \<and>
    succeeds demo_env init hello (build_try_order demo_env ! (2 - 1)) \<and>
    (\<forall>j<2 - 1. \<not> succeeds demo_env init hello (build_try_order demo_env ! j))"
    by (simp add: o1 s1)
  have h2: "\<forall>p\<in>set (build_try_order failing_env). \<not> succeeds failing_env init hello p"
    by (simp add: o2 s2)
  have h3: "get_available_notifiers dead_env = []"
    by (simp add: dead_env_def)
  have w0: "sent world0 = []" by (simp add: world0_def)
  from h1 router_tries_in_order_until_first_success
         [where e = demo_env and m = hello and w = init and x = world0 and k = 2]
  have a: "fst (send_notification demo_env hello (init, world0)) \<and>
      sent (snd (snd (send_notification demo_env hello (init, world0)))) =
        sent world0 @ attempts demo_env init hello (take 2 (build_try_order demo_env))"
    by blast
  from h2 router_tries_in_order_until_first_success
         [where e = failing_env and m = hello and w = init and x = world0 and k = 0]
  have b: "\<not> fst (send_notification failing_env hello (init, world0)) \<and>
      sent (snd (snd (send_notification failing_env hello (init, world0)))) =
        sent world0 @ attempts failing_env init hello (build_try_order failing_env)"
    by blast
  from h3 router_tries_in_order_until_first_success
         [where e = dead_env and m = hello and w = init and x = world0 and k = 0]
  have c: "send_notification dead_env hello (init, world0) =
     (False, (init, world0\<lparr>routed := routed world0 @ [hello]\<rparr>))"
    by blast
  from a b c show ?thesis by (simp add: o1 o2 n1 n2 w0)
qed

subsection \<open>Faults of a channel\<close>









end
